theory Spec2Isabelle
  imports Main "HOL-Library.AList"
begin

text \<open>
  The component builder of \<open>streamsync/ui_manager.py\<close>: the class \<open>StreamsyncUI\<close> with
  its in-container precondition, lookup, refresh and the shared creation routine. The
  operations are pure functions of the current container, the active tree and the arguments;
  each returns its result or error together with the tree it leaves. The private methods
  \<open>_create_component\<close>, \<open>_prepare_handlers\<close> and \<open>_prepare_binding\<close> are written with the
  prefix \<open>u_\<close>, and \<open>find\<close> is \<open>find_component\<close>.
\<close>

section \<open>Values handed to the builder\<close>

text \<open>
  The Python objects that occur as values of the \<open>handlers\<close> and \<open>binding\<close>
  dictionaries. A function object carries its declared name (\<open>__name__\<close>).
\<close>

datatype pyobj = PyNone | PyInt int | PyStr string | PyFunction string

fun callable :: "pyobj \<Rightarrow> bool" where
  "callable (PyFunction n) = True"
| "callable v = False"

text \<open>\<open>handler.__name__\<close>, read only where \<open>callable(handler)\<close> holds.\<close>

fun dunder_name :: "pyobj \<Rightarrow> string" where
  "dunder_name (PyFunction n) = n"
| "dunder_name v = []"

text \<open>
  A Python \<open>dict\<close> with string keys, as the list of its items in insertion order: the keys of
  a dictionary are distinct, lookup is \<open>map_of\<close>, and \<open>d[k] = v\<close> is \<open>AList.update\<close>.
\<close>

type_synonym 'v dict = "(string \<times> 'v) list"

section \<open>Component\<close>

text \<open>
  Modelled from the spec: the \<open>Component\<close> class is imported from
  \<open>streamsync.core_ui\<close>, which is not among the sources. The fields are those of the
  spec's data model; the root has no parent, so \<open>parentId\<close> is optional.
\<close>

record Component =
  c_id :: string
  c_type :: string
  parentId :: "string option"
  position :: int
  attributes :: "string dict"
  handlers :: "pyobj dict option"
  binding :: "pyobj dict option"
  flag :: string

text \<open>
  Modelled from the spec: \<open>Component\<close> is a plain record that defines neither
  \<open>__bool__\<close> nor \<open>__len__\<close>, so every instance is truthy.
\<close>

definition truthy :: "Component \<Rightarrow> bool" where
  "truthy c = True"

datatype error = UIError string | RuntimeError string | ValidationError

section \<open>ComponentTree\<close>

text \<open>
  Modelled from the spec: \<open>ComponentTree\<close>, \<open>SessionComponentTree\<close> and
  \<open>base_component_tree\<close> live in \<open>streamsync.core\<close> and \<open>streamsync.core_ui\<close>,
  which are not among the sources. A base tree owns its storage. A session tree owns its
  own storage and refers to the base tree it overlays; it never writes to the base. The spec
  asks both that clearing removes every descendant from the effective tree and that a
  session never mutates the base, so a session entry without a component records an id
  removed in this session: the id is then present locally and no longer falls through.
\<close>

datatype ComponentTree =
    BaseTree "Component dict"
  | SessionTree "Component option dict" "Component dict"

text \<open>
  Modelled from the spec: \<open>getComponent(id)\<close>, lookup with overlay fall-through (the
  session tree checks itself, then the base tree it overlays).
\<close>

fun get_component :: "ComponentTree \<Rightarrow> string \<Rightarrow> Component option" where
  "get_component (BaseTree cs) i = map_of cs i"
| "get_component (SessionTree s b) i =
     (case map_of s i of Some v \<Rightarrow> v | None \<Rightarrow> map_of b i)"

text \<open>
  Modelled from the spec: \<open>attach(component)\<close> inserts or replaces the component under
  its own id; a write to a session tree lands in the session storage. The builder creates with
  last-write-wins semantics, so no duplicate is refused.
\<close>

fun attach :: "ComponentTree \<Rightarrow> Component \<Rightarrow> ComponentTree" where
  "attach (BaseTree cs) c = BaseTree (AList.update (c_id c) c cs)"
| "attach (SessionTree s b) c = SessionTree (AList.update (c_id c) (Some c) s) b"

text \<open>
  Modelled from the spec: the effective tree, enumerated. \<open>ids\<close> lists every id the storage
  mentions, and \<open>effective\<close> pairs each id that resolves with the component \<open>get_component\<close>
  finds for it, so a shadowed or removed entry does not appear.
\<close>

fun ids :: "ComponentTree \<Rightarrow> string list" where
  "ids (BaseTree cs) = remdups (map fst cs)"
| "ids (SessionTree s b) = remdups (map fst s @ map fst b)"

definition effective :: "ComponentTree \<Rightarrow> Component dict" where
  "effective t =
     concat (map (\<lambda>i. case get_component t i of None \<Rightarrow> [] | Some c \<Rightarrow> [(i, c)]) (ids t))"

text \<open>
  Modelled from the spec: the children of \<open>p\<close> are the components whose \<open>parentId\<close> is
  \<open>p\<close> (a \<open>parentId\<close> value, so \<open>Some\<close> of the parent's id); the descendants are reached
  by following that relation any number of times.
\<close>

definition child_rel :: "ComponentTree \<Rightarrow> (string \<times> string) set" where
  "child_rel t =
     set (concat (map (\<lambda>(i, c). case parentId c of None \<Rightarrow> [] | Some p \<Rightarrow> [(p, i)])
                      (effective t)))"

definition children :: "ComponentTree \<Rightarrow> string option \<Rightarrow> Component dict" where
  "children t p = filter (\<lambda>(i, c). parentId c = p) (effective t)"

definition descendants :: "ComponentTree \<Rightarrow> string \<Rightarrow> string list" where
  "descendants t p = filter (\<lambda>i. i \<noteq> p \<and> (p, i) \<in> (child_rel t)\<^sup>+) (ids t)"

text \<open>
  Modelled from the spec: \<open>clearChildren(id)\<close> removes, recursively, every descendant of
  the named component (its entire subtree minus the node itself).
\<close>

fun clear_children :: "ComponentTree \<Rightarrow> string \<Rightarrow> ComponentTree" where
  "clear_children (BaseTree cs) p =
     BaseTree (filter (\<lambda>(i, c). i \<notin> set (descendants (BaseTree cs) p)) cs)"
| "clear_children (SessionTree s b) p =
     SessionTree (foldr (\<lambda>i. AList.update i None) (descendants (SessionTree s b) p) s) b"

text \<open>
  Modelled from the spec: \<open>determinePosition(id, parentId, isPositionless)\<close>. A positionless
  component gets the sentinel \<open>-2\<close>, and components at the sentinel are excluded from the
  maximum over the siblings. Otherwise an id that already exists keeps its position, and a new
  one is appended: \<open>1 + max(position among the siblings of parentId, or -1 if none)\<close>. The
  siblings are the components whose \<open>parentId\<close> equals the value passed.
\<close>

definition positionless_sentinel :: int where
  "positionless_sentinel = - 2"

definition sibling_positions :: "ComponentTree \<Rightarrow> string option \<Rightarrow> int list" where
  "sibling_positions t p =
     filter (\<lambda>n. n \<noteq> positionless_sentinel) (map (\<lambda>(i, c). position c) (children t p))"

definition append_position :: "ComponentTree \<Rightarrow> string option \<Rightarrow> int" where
  "append_position t p =
     1 + (if sibling_positions t p = [] then - 1 else Max (set (sibling_positions t p)))"

definition determine_position ::
  "ComponentTree \<Rightarrow> string \<Rightarrow> string option \<Rightarrow> bool \<Rightarrow> int" where
  "determine_position t i p is_positionless =
     (if is_positionless then positionless_sentinel
      else case get_component t i of
             Some c \<Rightarrow> position c
           | None \<Rightarrow> append_position t p)"

section \<open>StreamsyncUI\<close>

text \<open>
  The keyword arguments of a creation call. For a key that may be passed as \<open>None\<close> the
  outer option says whether the key is in \<open>kwargs\<close>, the inner one whether its value is
  \<open>None\<close>. The remaining keyword arguments are the component's attributes.
\<close>

record kwargs =
  kw_id :: "string option option"
  kw_position :: "int option option"
  kw_parentId :: "string option option"
  kw_positionless :: "bool option"
  kw_handlers :: "pyobj dict option option"
  kw_binding :: "pyobj dict option option"
  kw_attributes :: "string dict"

text \<open>
  \<open>current_parent_container\<close> is a context variable; the value of
  \<open>current_parent_container.get(None)\<close> is the argument \<open>container\<close> of each operation.
  \<open>self.component_tree\<close> is the argument \<open>tree\<close>; it is returned with the result, so that
  a failing call shows the tree it leaves behind. \<open>UIError\<close> and \<open>RuntimeError\<close> are the
  exceptions the source raises; the spec calls them \<open>NotInContainerError\<close> and
  \<open>ComponentNotFoundError\<close>.
\<close>

text \<open>\<open>assert_in_container\<close>, lines 26 to 30.\<close>

definition assert_in_container :: "Component option \<Rightarrow> error + unit" where
  "assert_in_container container =
     (case container of
        None \<Rightarrow> Inl (UIError ''A component can only be created inside a container'')
      | Some c \<Rightarrow> Inr ())"

text \<open>\<open>find\<close>, lines 38 to 62.\<close>

definition find_component :: "ComponentTree \<Rightarrow> string \<Rightarrow> error + Component" where
  "find_component tree component_id =
     (case get_component tree component_id of
        None \<Rightarrow> Inl (RuntimeError (''Component '' @ component_id @ '' not found''))
      | Some component \<Rightarrow> Inr component)"

text \<open>
  \<open>refresh_with\<close>, lines 64 to 98. The second check, \<open>if not component\<close>, tests the
  truthiness of the component that was found.
\<close>

definition refresh_with :: "ComponentTree \<Rightarrow> string \<Rightarrow> (error + Component) \<times> ComponentTree" where
  "refresh_with tree component_id =
     (case find_component tree component_id of
        Inl e \<Rightarrow> (Inl e, tree)
      | Inr component \<Rightarrow>
          if \<not> truthy component
          then (Inl (RuntimeError (''Component '' @ component_id @ '' not found'')), tree)
          else (Inr component, clear_children tree component_id))"

text \<open>
  \<open>_prepare_handlers\<close>, lines 100 to 108: the loop over \<open>raw_handlers.items()\<close>, with the
  dictionary built so far as accumulator, and the function around it.
\<close>

fun prepare_handlers_loop :: "pyobj dict \<Rightarrow> pyobj dict \<Rightarrow> pyobj dict" where
  "prepare_handlers_loop hs [] = hs"
| "prepare_handlers_loop hs ((event, handler) # rest) =
     (if callable handler
      then prepare_handlers_loop (AList.update event (PyStr (dunder_name handler)) hs) rest
      else prepare_handlers_loop (AList.update event handler hs) rest)"

definition u_prepare_handlers :: "pyobj dict option \<Rightarrow> pyobj dict" where
  "u_prepare_handlers raw_handlers =
     (case raw_handlers of None \<Rightarrow> [] | Some items \<Rightarrow> prepare_handlers_loop [] items)"

text \<open>\<open>_prepare_binding\<close>, lines 110 to 112.\<close>

definition u_prepare_binding :: "pyobj dict option \<Rightarrow> pyobj dict option" where
  "u_prepare_binding raw_binding = raw_binding"

text \<open>
  \<open>x or None\<close> for a dictionary and for an optional dictionary (lines 138 and 139): an
  empty dictionary and \<open>None\<close> are falsy.
\<close>

definition dict_or_None :: "'v dict \<Rightarrow> 'v dict option" where
  "dict_or_None d = (if d = [] then None else Some d)"

definition opt_dict_or_None :: "'v dict option \<Rightarrow> 'v dict option" where
  "opt_dict_or_None d = (case d of None \<Rightarrow> None | Some x \<Rightarrow> dict_or_None x)"

text \<open>\<open>if kwargs.get(k, False) is None: kwargs.pop(k)\<close>, lines 119 to 126.\<close>

definition pop_if_None :: "'a option option \<Rightarrow> 'a option option" where
  "pop_if_None v = (if v = Some None then None else v)"

text \<open>
  Modelled from the spec: the constructor of \<open>Component\<close>. It stores the fields it is
  given and leaves the position at its default. The id is a string, supplied by the caller or
  generated: when the \<open>id\<close> key is absent the id generator supplies it, and a key that holds
  \<open>None\<close> is not a string and is rejected. \<open>parentId\<close> is stored as it is passed, \<open>None\<close>
  included. What else the class validates is not in the sources and is the parameter
  \<open>valid\<close>.
\<close>

definition Component_init ::
  "(Component \<Rightarrow> bool) \<Rightarrow> string \<Rightarrow> string \<Rightarrow> string option \<Rightarrow> string \<Rightarrow>
   pyobj dict option \<Rightarrow> pyobj dict option \<Rightarrow> string option option \<Rightarrow> string dict \<Rightarrow>
   error + Component" where
  "Component_init valid generated_id ty parent fl hs b kwid attrs =
     (case (case kwid of None \<Rightarrow> Some generated_id | Some v \<Rightarrow> v) of
        None \<Rightarrow> Inl ValidationError
      | Some i \<Rightarrow>
          (let c = \<lparr>c_id = i, c_type = ty, parentId = parent, position = 0,
                    attributes = attrs, handlers = hs, binding = b, flag = fl\<rparr>
           in if valid c then Inr c else Inl ValidationError))"

text \<open>
  \<open>_create_component\<close>, lines 114 to 163. A key that is present after the three pops is
  read with whatever value it holds: \<open>parent_id\<close> is the value of a present \<open>parentId\<close>
  key (line 129), and the \<open>id\<close> key goes to the constructor with the remaining keyword
  arguments (line 147). \<open>generated_id\<close> is what the id generator of \<open>Component\<close> returns
  in this call.
\<close>

definition u_create_component ::
  "(Component \<Rightarrow> bool) \<Rightarrow> string \<Rightarrow> Component option \<Rightarrow> ComponentTree \<Rightarrow> string \<Rightarrow> kwargs \<Rightarrow>
   (error + Component) \<times> ComponentTree" where
  "u_create_component valid generated_id container tree component_type kw =
     (let parent_container = container;
          kw1 = kw\<lparr>kw_id := pop_if_None (kw_id kw)\<rparr>;
          kw2 = kw1\<lparr>kw_position := pop_if_None (kw_position kw1)\<rparr>;
          kw3 = kw2\<lparr>kw_parentId := pop_if_None (kw_parentId kw2)\<rparr>;
          parent_id =
            (case kw_parentId kw3 of
               Some v \<Rightarrow> v
             | None \<Rightarrow> Some (case parent_container of
                               None \<Rightarrow> ''root''
                             | Some pc \<Rightarrow> if \<not> truthy pc then ''root'' else c_id pc));
          pos = (case kw_position kw3 of Some v \<Rightarrow> v | None \<Rightarrow> None);
          is_positionless = (case kw_positionless kw3 of Some b \<Rightarrow> b | None \<Rightarrow> False);
          raw_handlers = (case kw_handlers kw3 of Some h \<Rightarrow> h | None \<Rightarrow> Some []);
          raw_binding = (case kw_binding kw3 of Some b \<Rightarrow> b | None \<Rightarrow> Some []);
          hs = dict_or_None (u_prepare_handlers raw_handlers);
          bd = opt_dict_or_None (u_prepare_binding raw_binding)
      in case Component_init valid generated_id component_type parent_id ''cmc'' hs bd
                (kw_id kw3) (kw_attributes kw3) of
           Inl e \<Rightarrow> (Inl e, tree)
         | Inr component0 \<Rightarrow>
             (let component = component0\<lparr>position :=
                    (case pos of
                       Some n \<Rightarrow> n
                     | None \<Rightarrow> determine_position tree (c_id component0) parent_id
                                 is_positionless)\<rparr>
              in (Inr component, attach tree component)))"

text \<open>\<open>create_container_component\<close>, lines 165 to 168, and \<open>create_component\<close>, lines 170 to 174.\<close>

definition create_container_component ::
  "(Component \<Rightarrow> bool) \<Rightarrow> string \<Rightarrow> Component option \<Rightarrow> ComponentTree \<Rightarrow> string \<Rightarrow> kwargs \<Rightarrow>
   (error + Component) \<times> ComponentTree" where
  "create_container_component valid generated_id container tree component_type kw =
     u_create_component valid generated_id container tree component_type kw"

definition create_component ::
  "(Component \<Rightarrow> bool) \<Rightarrow> string \<Rightarrow> Component option \<Rightarrow> ComponentTree \<Rightarrow> string \<Rightarrow> kwargs \<Rightarrow>
   (error + Component) \<times> ComponentTree" where
  "create_component valid generated_id container tree component_type kw =
     (case assert_in_container container of
        Inl e \<Rightarrow> (Inl e, tree)
      | Inr u \<Rightarrow> u_create_component valid generated_id container tree component_type kw)"

text \<open>The outcomes of the two public creation operations on the same arguments.\<close>

definition creation_calls ::
  "(Component \<Rightarrow> bool) \<Rightarrow> string \<Rightarrow> Component option \<Rightarrow> ComponentTree \<Rightarrow> string \<Rightarrow> kwargs \<Rightarrow>
   ((error + Component) \<times> ComponentTree) set" where
  "creation_calls valid generated_id container tree component_type kw =
     {create_component valid generated_id container tree component_type kw,
      create_container_component valid generated_id container tree component_type kw}"

text \<open>
  Successive creation calls in one context, each on the tree the previous one left; the run
  stops at the first call that fails. A call is the generated id, the component type and the
  keyword arguments; \<open>call_id\<close> is the id its component receives, and an append call is
  one with unset position that is not positionless.
\<close>

definition call_id :: "string \<times> string \<times> kwargs \<Rightarrow> string" where
  "call_id call =
     (case call of (g, ty, kw) \<Rightarrow> (case kw_id kw of Some (Some i) \<Rightarrow> i | _ \<Rightarrow> g))"

definition append_call :: "string \<times> string \<times> kwargs \<Rightarrow> bool" where
  "append_call call =
     (case call of (g, ty, kw) \<Rightarrow>
        (kw_position kw = None \<or> kw_position kw = Some None) \<and> kw_positionless kw \<noteq> Some True)"

fun create_all ::
  "(Component \<Rightarrow> bool) \<Rightarrow> bool \<Rightarrow> Component option \<Rightarrow> ComponentTree \<Rightarrow>
   (string \<times> string \<times> kwargs) list \<Rightarrow> Component list \<times> ComponentTree" where
  "create_all valid leaf container tree [] = ([], tree)"
| "create_all valid leaf container tree ((g, ty, kw) # calls) =
     (case (if leaf then create_component valid g container tree ty kw
            else create_container_component valid g container tree ty kw) of
        (Inl e, t') \<Rightarrow> ([], t')
      | (Inr c, t') \<Rightarrow>
          (case create_all valid leaf container t' calls of (cs, t'') \<Rightarrow> (c # cs, t'')))"

text \<open>
  The parent resolution in the spec's words: an explicit override, else the current container,
  else the root.
\<close>

fun spec_parentId :: "string option option \<Rightarrow> Component option \<Rightarrow> string" where
  "spec_parentId (Some (Some p)) container = p"
| "spec_parentId explicit (Some pc) = c_id pc"
| "spec_parentId explicit None = ''root''"

text \<open>A constructor that accepts every component.\<close>

definition accept_all :: "Component \<Rightarrow> bool" where
  "accept_all c = True"

section \<open>Example data\<close>

definition root_component :: Component where
  "root_component =
     \<lparr>c_id = ''root'', c_type = ''root'', parentId = None, position = 0, attributes = [],
      handlers = None, binding = None, flag = []\<rparr>"

definition column_component :: Component where
  "column_component =
     \<lparr>c_id = ''col'', c_type = ''column'', parentId = Some ''root'', position = 0,
      attributes = [], handlers = None, binding = None, flag = ''cmc''\<rparr>"

definition text_component :: Component where
  "text_component =
     \<lparr>c_id = ''txt'', c_type = ''text'', parentId = Some ''col'', position = 2,
      attributes = [], handlers = None, binding = None, flag = ''cmc''\<rparr>"

definition button_component :: Component where
  "button_component =
     \<lparr>c_id = ''btn'', c_type = ''button'', parentId = Some ''col'', position = 3,
      attributes = [], handlers = None, binding = None, flag = ''cmc''\<rparr>"

definition base_tree :: ComponentTree where
  "base_tree = BaseTree [(''root'', root_component), (''col'', column_component),
                          (''txt'', text_component)]"

definition session_tree :: ComponentTree where
  "session_tree =
     SessionTree [(''btn'', Some button_component)]
       [(''root'', root_component), (''col'', column_component), (''txt'', text_component)]"

definition no_kwargs :: kwargs where
  "no_kwargs = \<lparr>kw_id = None, kw_position = None, kw_parentId = None, kw_positionless = None,
                 kw_handlers = None, kw_binding = None, kw_attributes = []\<rparr>"

definition full_kwargs :: kwargs where
  "full_kwargs =
     \<lparr>kw_id = Some (Some ''b1''), kw_position = Some (Some 7), kw_parentId = Some (Some ''col''),
      kw_positionless = Some True,
      kw_handlers = Some (Some [(''click'', PyFunction ''on_click''), (''change'', PyStr ''on_change'')]),
      kw_binding = Some (Some [(''stateRef'', PyStr ''counter'')]),
      kw_attributes = [(''text'', ''Go'')]\<rparr>"

definition created_button :: Component where
  "created_button =
     \<lparr>c_id = ''b1'', c_type = ''button'', parentId = Some ''col'', position = 7,
      attributes = [(''text'', ''Go'')],
      handlers = Some [(''click'', PyStr ''on_click''), (''change'', PyStr ''on_change'')],
      binding = Some [(''stateRef'', PyStr ''counter'')], flag = ''cmc''\<rparr>"

definition created_text :: Component where
  "created_text =
     \<lparr>c_id = ''g1'', c_type = ''text'', parentId = Some ''col'', position = 3,
      attributes = [], handlers = None, binding = None, flag = ''cmc''\<rparr>"

definition created_unbound :: Component where
  "created_unbound =
     \<lparr>c_id = ''g1'', c_type = ''text'', parentId = Some ''root'', position = 1,
      attributes = [], handlers = None, binding = None, flag = ''cmc''\<rparr>"

definition none_kwargs :: kwargs where
  "none_kwargs = no_kwargs\<lparr>kw_id := Some None, kw_position := Some None, kw_parentId := Some None\<rparr>"

definition root_only :: ComponentTree where
  "root_only = BaseTree [(''root'', root_component)]"

definition three_calls :: "(string \<times> string \<times> kwargs) list" where
  "three_calls = [(''a'', ''text'', no_kwargs), (''b'', ''text'', no_kwargs),
                  (''c'', ''button'', no_kwargs)]"

definition created_positionless :: Component where
  "created_positionless = created_text\<lparr>c_id := ''g3'', position := - 2\<rparr>"

definition created_again :: Component where
  "created_again = created_text\<lparr>c_id := ''txt'', position := 2\<rparr>"

section \<open>The tree as a map\<close>

lemma get_component_attach:
  "get_component (attach t c) i = (if i = c_id c then Some c else get_component t i)"
  by (cases t) (simp_all add: update_conv')

lemma get_component_ids: "get_component t i = Some c \<Longrightarrow> i \<in> set (ids t)"
  by (cases t) (auto split: option.splits dest: map_of_SomeD simp: rev_image_eqI)

lemma set_effective: "(i, c) \<in> set (effective t) \<longleftrightarrow> get_component t i = Some c"
  by (auto simp: effective_def get_component_ids split: option.splits)

lemma map_of_filter_key:
  "map_of (filter (\<lambda>(i, c). P i) cs) k = (if P k then map_of cs k else None)"
  by (induction cs) auto

lemma map_of_foldr_update:
  "map_of (foldr (\<lambda>i. AList.update i v) ks s) k = (if k \<in> set ks then Some v else map_of s k)"
  by (induction ks) (auto simp: update_conv')

lemma get_component_clear_children:
  "get_component (clear_children t p) i =
     (if i \<in> set (descendants t p) then None else get_component t i)"
  by (cases t) (simp_all add: map_of_filter_key map_of_foldr_update)

section \<open>The shared creation routine\<close>

lemma creation_calls_success:
  "(Inr c, t') \<in> creation_calls valid g container tree ty kw \<Longrightarrow>
     u_create_component valid g container tree ty kw = (Inr c, t')"
  by (auto simp: creation_calls_def create_component_def create_container_component_def
      split: sum.splits)

lemma parent_pop_if_None:
  "(case pop_if_None v of Some x \<Rightarrow> x | None \<Rightarrow> Some d) =
     Some (case v of Some (Some p) \<Rightarrow> p | _ \<Rightarrow> d)"
  by (simp add: pop_if_None_def split: option.splits)

lemma join_pop_if_None:
  "(case pop_if_None v of Some x \<Rightarrow> x | None \<Rightarrow> None) = (case v of Some x \<Rightarrow> x | None \<Rightarrow> None)"
  by (simp add: pop_if_None_def split: option.splits)

lemma Component_init_pop_if_None:
  "Component_init valid g ty parent fl hs b (pop_if_None k) attrs =
     (if valid \<lparr>c_id = (case k of Some (Some i) \<Rightarrow> i | _ \<Rightarrow> g), c_type = ty,
                parentId = parent, position = 0, attributes = attrs, handlers = hs,
                binding = b, flag = fl\<rparr>
      then Inr \<lparr>c_id = (case k of Some (Some i) \<Rightarrow> i | _ \<Rightarrow> g), c_type = ty,
                parentId = parent, position = 0, attributes = attrs, handlers = hs,
                binding = b, flag = fl\<rparr>
      else Inl ValidationError)"
  by (simp add: Component_init_def pop_if_None_def Let_def split: option.splits)

lemma spec_parentId_eq:
  "spec_parentId explicit container =
     (case explicit of Some (Some p) \<Rightarrow> p
      | _ \<Rightarrow> (case container of None \<Rightarrow> ''root'' | Some pc \<Rightarrow> c_id pc))"
  by (cases "(explicit, container)" rule: spec_parentId.cases) auto

lemma u_create_component_eq:
  "u_create_component valid g container tree ty kw =
     (case Component_init valid g ty (Some (spec_parentId (kw_parentId kw) container)) ''cmc''
             (dict_or_None (u_prepare_handlers
                (case kw_handlers kw of Some h \<Rightarrow> h | None \<Rightarrow> Some [])))
             (opt_dict_or_None (case kw_binding kw of Some b \<Rightarrow> b | None \<Rightarrow> Some []))
             (pop_if_None (kw_id kw)) (kw_attributes kw) of
        Inl e \<Rightarrow> (Inl e, tree)
      | Inr c0 \<Rightarrow>
          (Inr (c0\<lparr>position :=
                  (case (case kw_position kw of Some x \<Rightarrow> x | None \<Rightarrow> None) of
                     Some n \<Rightarrow> n
                   | None \<Rightarrow> determine_position tree (c_id c0)
                               (Some (spec_parentId (kw_parentId kw) container))
                               (case kw_positionless kw of Some b \<Rightarrow> b | None \<Rightarrow> False))\<rparr>),
           attach tree (c0\<lparr>position :=
                  (case (case kw_position kw of Some x \<Rightarrow> x | None \<Rightarrow> None) of
                     Some n \<Rightarrow> n
                   | None \<Rightarrow> determine_position tree (c_id c0)
                               (Some (spec_parentId (kw_parentId kw) container))
                               (case kw_positionless kw of Some b \<Rightarrow> b | None \<Rightarrow> False))\<rparr>)))"
  by (simp add: u_create_component_def Let_def parent_pop_if_None join_pop_if_None truthy_def
      u_prepare_binding_def spec_parentId_eq cong: option.case_cong sum.case_cong)

lemma u_create_component_success:
  assumes "u_create_component valid g container tree ty kw = (Inr c, t')"
  shows "c_id c = (case kw_id kw of Some (Some i) \<Rightarrow> i | _ \<Rightarrow> g)"
    and "c_type c = ty"
    and "parentId c = Some (spec_parentId (kw_parentId kw) container)"
    and "position c = (case (case kw_position kw of Some x \<Rightarrow> x | None \<Rightarrow> None) of Some n \<Rightarrow> n
           | None \<Rightarrow> determine_position tree (c_id c)
                          (Some (spec_parentId (kw_parentId kw) container))
                          (case kw_positionless kw of Some b \<Rightarrow> b | None \<Rightarrow> False))"
    and "attributes c = kw_attributes kw"
    and "handlers c = dict_or_None (u_prepare_handlers
                   (case kw_handlers kw of Some h \<Rightarrow> h | None \<Rightarrow> Some []))"
    and "binding c = opt_dict_or_None (case kw_binding kw of Some b \<Rightarrow> b | None \<Rightarrow> Some [])"
    and "flag c = ''cmc''"
    and "t' = attach tree c"
  using assms
  by (auto simp: u_create_component_eq Component_init_pop_if_None split: if_splits
      cong: option.case_cong)

lemma u_create_component_failure:
  assumes "u_create_component valid g container tree ty kw = (Inl e, t')"
  shows "e = ValidationError" and "t' = tree"
  using assms
  by (auto simp: u_create_component_eq Component_init_pop_if_None split: if_splits)

lemma create_text_example:
  "create_component accept_all ''g1'' (Some column_component) base_tree ''text'' no_kwargs =
     (Inr created_text, attach base_tree created_text)"
  by (simp add: create_component_def assert_in_container_def u_create_component_def
      Component_init_def Let_def pop_if_None_def no_kwargs_def accept_all_def truthy_def
      u_prepare_handlers_def u_prepare_binding_def dict_or_None_def opt_dict_or_None_def
      column_component_def created_text_def determine_position_def append_position_def base_tree_def
      sibling_positions_def children_def effective_def positionless_sentinel_def
      root_component_def text_component_def)

lemma create_button_example:
  "create_container_component accept_all ''g2'' None session_tree ''button'' full_kwargs =
     (Inr created_button, attach session_tree created_button)"
  by (simp add: create_container_component_def u_create_component_def
      Component_init_def Let_def pop_if_None_def full_kwargs_def accept_all_def
      u_prepare_handlers_def u_prepare_binding_def dict_or_None_def opt_dict_or_None_def
      created_button_def)

text \<open>
  Claim C2. The \<open>parentId\<close> of a created component is resolved with the precedence: an
  explicitly passed \<open>parentId\<close> other than \<open>None\<close>, else the id of the container held by
  the context, else \<open>root\<close>.
\<close>

theorem parentId_precedence:
  assumes "(Inr c, t') \<in> creation_calls valid g container tree ty kw"
  shows "parentId c = Some (spec_parentId (kw_parentId kw) container)"
  using u_create_component_success(3) [OF creation_calls_success [OF assms]] .

theorem parentId_precedence_witness:
  "(Inr created_text, attach base_tree created_text) \<in>
      creation_calls accept_all ''g1'' (Some column_component) base_tree ''text'' no_kwargs \<and>
   parentId created_text = Some ''col'' \<and>
   (Inr created_button, attach session_tree created_button) \<in>
      creation_calls accept_all ''g2'' None session_tree ''button'' full_kwargs \<and>
   parentId created_button = Some ''col''"
proof -
  have a: "(Inr created_text, attach base_tree created_text) \<in>
      creation_calls accept_all ''g1'' (Some column_component) base_tree ''text'' no_kwargs"
    by (simp add: creation_calls_def create_text_example)
  have b: "(Inr created_button, attach session_tree created_button) \<in>
      creation_calls accept_all ''g2'' None session_tree ''button'' full_kwargs"
    by (simp add: creation_calls_def create_button_example)
  from parentId_precedence [OF a] parentId_precedence [OF b] a b show ?thesis
    by (simp add: no_kwargs_def full_kwargs_def column_component_def)
qed

lemma creation_calls_failure:
  "(Inl e, t') \<in> creation_calls valid g container tree ty kw \<Longrightarrow>
     t' = tree \<and>
     (e = UIError ''A component can only be created inside a container'' \<or> e = ValidationError)"
  by (auto simp: creation_calls_def create_component_def create_container_component_def
      assert_in_container_def split: sum.splits option.splits
      dest: u_create_component_failure [OF sym])

lemma create_button_member:
  "(Inr created_button, attach session_tree created_button) \<in>
      creation_calls accept_all ''g2'' None session_tree ''button'' full_kwargs"
  by (simp add: creation_calls_def create_button_example)

lemma create_text_member:
  "(Inr created_text, attach base_tree created_text) \<in>
      creation_calls accept_all ''g1'' (Some column_component) base_tree ''text'' no_kwargs"
  by (simp add: creation_calls_def create_text_example)

text \<open>
  Claim C10. When a creation call passes a position other than \<open>None\<close>, the component that
  is returned and attached has exactly that position: \<open>determine_position\<close> is not
  consulted, so the positionless flag, the siblings and an existing component with the same id
  play no part.
\<close>

theorem explicit_position_kept:
  assumes "(Inr c, t') \<in> creation_calls valid g container tree ty kw"
    and "kw_position kw = Some (Some n)"
  shows "position c = n \<and> get_component t' (c_id c) = Some c"
  using u_create_component_success(4,9) [OF creation_calls_success [OF assms(1)]] assms(2)
  by (simp add: get_component_attach)

theorem explicit_position_kept_witness:
  "(Inr created_button, attach session_tree created_button) \<in>
      creation_calls accept_all ''g2'' None session_tree ''button'' full_kwargs \<and>
   kw_position full_kwargs = Some (Some 7) \<and> kw_positionless full_kwargs = Some True \<and>
   position created_button = 7 \<and>
   get_component (attach session_tree created_button) ''b1'' = Some created_button"
  using explicit_position_kept [OF create_button_member, of 7] create_button_member
  by (simp add: full_kwargs_def created_button_def)

text \<open>
  Claim C9, as stated, fails for an empty binding: the source stores \<open>binding or None\<close>,
  so the empty dictionary is stored as no binding at all.
\<close>

theorem binding_empty_counterexample:
  "create_container_component accept_all ''g1'' None base_tree ''text''
     (no_kwargs\<lparr>kw_binding := Some (Some [])\<rparr>) =
     (Inr created_unbound, attach base_tree created_unbound) \<and>
   binding created_unbound \<noteq> Some []"
  by (simp add: create_container_component_def u_create_component_def
      Component_init_def Let_def pop_if_None_def no_kwargs_def accept_all_def truthy_def
      u_prepare_handlers_def u_prepare_binding_def dict_or_None_def opt_dict_or_None_def
      created_unbound_def determine_position_def append_position_def base_tree_def
      sibling_positions_def children_def effective_def positionless_sentinel_def
      root_component_def text_component_def column_component_def)

text \<open>
  Claim C9, amended. A non-empty binding is stored on the created component unmodified; when
  no binding is passed, or the one passed is \<open>None\<close> or empty, the component has no binding.
\<close>

theorem binding_stored:
  assumes "(Inr c, t') \<in> creation_calls valid g container tree ty kw"
  shows "binding c = (case kw_binding kw of
                        Some (Some b) \<Rightarrow> if b = [] then None else Some b
                      | _ \<Rightarrow> None)"
  using u_create_component_success(7) [OF creation_calls_success [OF assms]]
  by (simp add: opt_dict_or_None_def dict_or_None_def split: option.splits)

theorem binding_stored_witness:
  "(Inr created_button, attach session_tree created_button) \<in>
      creation_calls accept_all ''g2'' None session_tree ''button'' full_kwargs \<and>
   kw_binding full_kwargs = Some (Some [(''stateRef'', PyStr ''counter'')]) \<and>
   binding created_button = Some [(''stateRef'', PyStr ''counter'')] \<and>
   (Inr created_text, attach base_tree created_text) \<in>
      creation_calls accept_all ''g1'' (Some column_component) base_tree ''text'' no_kwargs \<and>
   kw_binding no_kwargs = None \<and> binding created_text = None"
  using binding_stored [OF create_button_member] binding_stored [OF create_text_member]
    create_button_member create_text_member
  by (simp add: full_kwargs_def no_kwargs_def)

text \<open>
  Claim C7. Every creation call either returns the component and the tree with exactly that
  component attached under its id (every other id as before), or fails, with the in-container
  error or a rejection by the constructor, and leaves the tree as it was.
\<close>

theorem creation_all_or_nothing:
  assumes "r \<in> creation_calls valid g container tree ty kw"
  shows "case fst r of
           Inr c \<Rightarrow> snd r = attach tree c \<and> get_component (snd r) (c_id c) = Some c \<and>
                    (\<forall>i. i \<noteq> c_id c \<longrightarrow> get_component (snd r) i = get_component tree i)
         | Inl e \<Rightarrow> snd r = tree \<and>
                    (e = UIError ''A component can only be created inside a container'' \<or>
                     e = ValidationError)"
proof (cases r)
  case (Pair res t')
  show ?thesis
  proof (cases res)
    case (Inl e)
    with Pair assms creation_calls_failure [of e t' valid g container tree ty kw]
    show ?thesis by simp
  next
    case (Inr c)
    with Pair assms have "u_create_component valid g container tree ty kw = (Inr c, t')"
      by (simp add: creation_calls_success)
    from u_create_component_success(9) [OF this] Pair Inr show ?thesis
      by (simp add: get_component_attach)
  qed
qed

theorem creation_all_or_nothing_witness:
  "create_component accept_all ''g1'' (Some column_component) base_tree ''text'' no_kwargs
      \<in> creation_calls accept_all ''g1'' (Some column_component) base_tree ''text'' no_kwargs \<and>
   create_component accept_all ''g1'' (Some column_component) base_tree ''text'' no_kwargs =
     (Inr created_text, attach base_tree created_text) \<and>
   get_component (attach base_tree created_text) ''g1'' = Some created_text \<and>
   create_component accept_all ''g1'' None base_tree ''text'' no_kwargs
      \<in> creation_calls accept_all ''g1'' None base_tree ''text'' no_kwargs \<and>
   snd (create_component accept_all ''g1'' None base_tree ''text'' no_kwargs) = base_tree"
proof -
  have a: "create_component accept_all ''g1'' (Some column_component) base_tree ''text'' no_kwargs
      \<in> creation_calls accept_all ''g1'' (Some column_component) base_tree ''text'' no_kwargs"
    by (simp add: creation_calls_def)
  have b: "create_component accept_all ''g1'' None base_tree ''text'' no_kwargs
      \<in> creation_calls accept_all ''g1'' None base_tree ''text'' no_kwargs"
    by (simp add: creation_calls_def)
  have c: "fst (create_component accept_all ''g1'' None base_tree ''text'' no_kwargs) =
      Inl (UIError ''A component can only be created inside a container'')"
    by (simp add: create_component_def assert_in_container_def)
  from creation_all_or_nothing [OF a] creation_all_or_nothing [OF b] a b c show ?thesis
    by (simp add: create_text_example created_text_def)
qed

lemma spec_parentId_None: "spec_parentId (Some None) container = spec_parentId None container"
  by (simp add: spec_parentId_eq)

text \<open>
  Claim C8. Passing \<open>None\<close> for \<open>id\<close>, \<open>position\<close> or \<open>parentId\<close> gives the same
  outcome as not passing the key: the id is generated, the position is computed by
  \<open>determine_position\<close>, the parent is taken from the context. For \<open>id\<close> and
  \<open>parentId\<close> this is the work of the pops of lines 119 to 126: a key left holding
  \<open>None\<close> would reach the constructor as the id, and would be the parent.
\<close>

theorem None_is_unset:
  "create_component valid g container tree ty (kw\<lparr>kw_id := Some None\<rparr>) =
     create_component valid g container tree ty (kw\<lparr>kw_id := None\<rparr>) \<and>
   create_component valid g container tree ty (kw\<lparr>kw_position := Some None\<rparr>) =
     create_component valid g container tree ty (kw\<lparr>kw_position := None\<rparr>) \<and>
   create_component valid g container tree ty (kw\<lparr>kw_parentId := Some None\<rparr>) =
     create_component valid g container tree ty (kw\<lparr>kw_parentId := None\<rparr>) \<and>
   create_container_component valid g container tree ty (kw\<lparr>kw_id := Some None\<rparr>) =
     create_container_component valid g container tree ty (kw\<lparr>kw_id := None\<rparr>) \<and>
   create_container_component valid g container tree ty (kw\<lparr>kw_position := Some None\<rparr>) =
     create_container_component valid g container tree ty (kw\<lparr>kw_position := None\<rparr>) \<and>
   create_container_component valid g container tree ty (kw\<lparr>kw_parentId := Some None\<rparr>) =
     create_container_component valid g container tree ty (kw\<lparr>kw_parentId := None\<rparr>) \<and>
   ((Inr c, t') \<in> creation_calls valid g container tree ty kw \<longrightarrow>
      (kw_id kw = Some None \<longrightarrow> c_id c = g) \<and>
      (kw_position kw = Some None \<longrightarrow>
         position c = determine_position tree (c_id c)
                        (Some (spec_parentId (kw_parentId kw) container))
                        (case kw_positionless kw of Some b \<Rightarrow> b | None \<Rightarrow> False)) \<and>
      (kw_parentId kw = Some None \<longrightarrow>
         parentId c = Some (case container of None \<Rightarrow> ''root'' | Some pc \<Rightarrow> c_id pc)))"
proof -
  have 1: "u_create_component valid g container tree ty (kw\<lparr>kw_id := Some None\<rparr>) =
     u_create_component valid g container tree ty (kw\<lparr>kw_id := None\<rparr>)"
    by (simp add: u_create_component_eq pop_if_None_def spec_parentId_None
        cong: sum.case_cong option.case_cong)
  have 2: "u_create_component valid g container tree ty (kw\<lparr>kw_position := Some None\<rparr>) =
     u_create_component valid g container tree ty (kw\<lparr>kw_position := None\<rparr>)"
    by (simp add: u_create_component_eq pop_if_None_def spec_parentId_None
        cong: sum.case_cong option.case_cong)
  have 3: "u_create_component valid g container tree ty (kw\<lparr>kw_parentId := Some None\<rparr>) =
     u_create_component valid g container tree ty (kw\<lparr>kw_parentId := None\<rparr>)"
    by (simp add: u_create_component_eq pop_if_None_def spec_parentId_None
        cong: sum.case_cong option.case_cong)
  have 4: "(Inr c, t') \<in> creation_calls valid g container tree ty kw \<longrightarrow>
      (kw_id kw = Some None \<longrightarrow> c_id c = g) \<and>
      (kw_position kw = Some None \<longrightarrow>
         position c = determine_position tree (c_id c)
                        (Some (spec_parentId (kw_parentId kw) container))
                        (case kw_positionless kw of Some b \<Rightarrow> b | None \<Rightarrow> False)) \<and>
      (kw_parentId kw = Some None \<longrightarrow>
         parentId c = Some (case container of None \<Rightarrow> ''root'' | Some pc \<Rightarrow> c_id pc))"
  proof
    assume "(Inr c, t') \<in> creation_calls valid g container tree ty kw"
    note s = u_create_component_success [OF creation_calls_success [OF this]]
    from s(1) have "kw_id kw = Some None \<longrightarrow> c_id c = g" by simp
    moreover from s(4) have "kw_position kw = Some None \<longrightarrow>
         position c = determine_position tree (c_id c)
                        (Some (spec_parentId (kw_parentId kw) container))
                        (case kw_positionless kw of Some b \<Rightarrow> b | None \<Rightarrow> False)" by simp
    moreover from s(3) have "kw_parentId kw = Some None \<longrightarrow>
         parentId c = Some (case container of None \<Rightarrow> ''root'' | Some pc \<Rightarrow> c_id pc)"
      by (simp add: spec_parentId_eq)
    ultimately show "(kw_id kw = Some None \<longrightarrow> c_id c = g) \<and>
      (kw_position kw = Some None \<longrightarrow>
         position c = determine_position tree (c_id c)
                        (Some (spec_parentId (kw_parentId kw) container))
                        (case kw_positionless kw of Some b \<Rightarrow> b | None \<Rightarrow> False)) \<and>
      (kw_parentId kw = Some None \<longrightarrow>
         parentId c = Some (case container of None \<Rightarrow> ''root'' | Some pc \<Rightarrow> c_id pc))"
      by blast
  qed
  from 1 2 3 4 show ?thesis
    by (simp only: create_component_def create_container_component_def) 
qed

theorem None_is_unset_witness:
  "(Inr created_text, attach base_tree created_text) \<in>
      creation_calls accept_all ''g1'' (Some column_component) base_tree ''text'' none_kwargs \<and>
   kw_id none_kwargs = Some None \<and> kw_position none_kwargs = Some None \<and>
   kw_parentId none_kwargs = Some None \<and>
   c_id created_text = ''g1'' \<and> position created_text = 3 \<and> parentId created_text = Some ''col''"
proof -
  have "create_component accept_all ''g1'' (Some column_component) base_tree ''text'' none_kwargs =
      create_component accept_all ''g1'' (Some column_component) base_tree ''text'' no_kwargs"
    using None_is_unset [of accept_all "''g1''" "Some column_component" base_tree "''text''"
        "no_kwargs\<lparr>kw_position := Some None, kw_parentId := Some None\<rparr>"]
      None_is_unset [of accept_all "''g1''" "Some column_component" base_tree "''text''"
        "no_kwargs\<lparr>kw_parentId := Some None\<rparr>"]
      None_is_unset [of accept_all "''g1''" "Some column_component" base_tree "''text''" no_kwargs]
    by (simp add: none_kwargs_def no_kwargs_def)
  then have m: "(Inr created_text, attach base_tree created_text) \<in>
      creation_calls accept_all ''g1'' (Some column_component) base_tree ''text'' none_kwargs"
    by (simp add: creation_calls_def create_text_example)
  from None_is_unset [of accept_all "''g1''" "Some column_component" base_tree "''text''"
      none_kwargs created_text "attach base_tree created_text"] m
  show ?thesis
    by (simp add: none_kwargs_def no_kwargs_def created_text_def)
qed

section \<open>Handlers\<close>

lemma set_update_subset: "set (AList.update k v al) \<subseteq> insert (k, v) (set al)"
  by (induction al) auto

lemma prepare_handlers_loop_not_callable:
  "\<forall>(e, v) \<in> set hs. \<not> callable v \<Longrightarrow>
   \<forall>(e, v) \<in> set (prepare_handlers_loop hs items). \<not> callable v"
proof (induction hs items rule: prepare_handlers_loop.induct)
  case (1 hs)
  then show ?case by simp
next
  case (2 hs event handler rest)
  show ?case
  proof (cases "callable handler")
    case True
    have "\<forall>(e, v) \<in> set (AList.update event (PyStr (dunder_name handler)) hs). \<not> callable v"
      using "2.prems" set_update_subset [of event "PyStr (dunder_name handler)" hs] by auto
    with True "2.IH"(1) show ?thesis by simp
  next
    case False
    have "\<forall>(e, v) \<in> set (AList.update event handler hs). \<not> callable v"
      using "2.prems" False set_update_subset [of event handler hs] by auto
    with False "2.IH"(2) show ?thesis by simp
  qed
qed

lemma prepare_handlers_loop_map_of:
  "map_of (prepare_handlers_loop hs items) e =
     (case map_of (rev items) e of
        Some v \<Rightarrow> Some (if callable v then PyStr (dunder_name v) else v)
      | None \<Rightarrow> map_of hs e)"
  by (induction hs items rule: prepare_handlers_loop.induct)
     (auto simp: update_conv' map_add_def split: option.splits)

lemma map_of_rev_distinct:
  "distinct (map fst xs) \<Longrightarrow> (k, v) \<in> set xs \<Longrightarrow> map_of (rev xs) k = Some v"
  by (simp add: map_of_eq_Some_iff rev_map [symmetric])

text \<open>
  Claim C6. For every entry of the handlers dictionary passed to a creation call, the created
  component stores under the same event the declared name of the value when the value is
  callable, and the value as given otherwise; no value of a component's stored handlers is
  callable.
\<close>

theorem handlers_stored_by_name:
  assumes "(Inr c, t') \<in> creation_calls valid g container tree ty kw"
  shows "(kw_handlers kw = Some (Some raw) \<longrightarrow> distinct (map fst raw) \<longrightarrow>
            (\<forall>(event, handler) \<in> set raw.
               \<exists>hs. handlers c = Some hs \<and>
                    map_of hs event =
                      Some (if callable handler then PyStr (dunder_name handler) else handler))) \<and>
         (\<forall>hs. handlers c = Some hs \<longrightarrow> (\<forall>(event, handler) \<in> set hs. \<not> callable handler))"
proof -
  note h = u_create_component_success(6) [OF creation_calls_success [OF assms]]
  have a: "kw_handlers kw = Some (Some raw) \<longrightarrow> distinct (map fst raw) \<longrightarrow>
            (\<forall>(event, handler) \<in> set raw.
               \<exists>hs. handlers c = Some hs \<and>
                    map_of hs event =
                      Some (if callable handler then PyStr (dunder_name handler) else handler))"
  proof (intro impI ballI, clarify)
    fix event handler
    assume kw: "kw_handlers kw = Some (Some raw)" and d: "distinct (map fst raw)"
      and m: "(event, handler) \<in> set raw"
    have l: "map_of (prepare_handlers_loop [] raw) event =
        Some (if callable handler then PyStr (dunder_name handler) else handler)"
      by (simp add: prepare_handlers_loop_map_of map_of_rev_distinct [OF d m])
    then have "prepare_handlers_loop [] raw \<noteq> []" by auto
    with h kw l show "\<exists>hs. handlers c = Some hs \<and>
        map_of hs event = Some (if callable handler then PyStr (dunder_name handler) else handler)"
      by (simp add: u_prepare_handlers_def dict_or_None_def)
  qed
  have b: "\<forall>hs. handlers c = Some hs \<longrightarrow> (\<forall>(event, handler) \<in> set hs. \<not> callable handler)"
  proof (intro allI impI)
    fix hs assume "handlers c = Some hs"
    with h have "hs = u_prepare_handlers (case kw_handlers kw of Some h \<Rightarrow> h | None \<Rightarrow> Some [])"
      by (simp add: dict_or_None_def split: if_splits)
    moreover have "\<forall>(e, v) \<in> set (prepare_handlers_loop [] items). \<not> callable v" for items
      by (rule prepare_handlers_loop_not_callable) simp
    ultimately show "\<forall>(event, handler) \<in> set hs. \<not> callable handler"
      by (auto simp: u_prepare_handlers_def split: option.splits)
  qed
  from a b show ?thesis by blast
qed

theorem handlers_stored_by_name_witness:
  "(Inr created_button, attach session_tree created_button) \<in>
      creation_calls accept_all ''g2'' None session_tree ''button'' full_kwargs \<and>
   kw_handlers full_kwargs =
      Some (Some [(''click'', PyFunction ''on_click''), (''change'', PyStr ''on_change'')]) \<and>
   distinct (map fst [(''click'', PyFunction ''on_click''), (''change'', PyStr ''on_change'')]) \<and>
   handlers created_button = Some [(''click'', PyStr ''on_click''), (''change'', PyStr ''on_change'')] \<and>
   \<not> callable (PyStr ''on_click'') \<and> \<not> callable (PyStr ''on_change'')"
  using handlers_stored_by_name [OF create_button_member,
      of "[(''click'', PyFunction ''on_click''), (''change'', PyStr ''on_change'')]"]
    create_button_member
  by (simp add: full_kwargs_def created_button_def)

section \<open>Refreshing a container\<close>

lemma child_rel_iff:
  "(p, i) \<in> child_rel t \<longleftrightarrow> (\<exists>c. get_component t i = Some c \<and> parentId c = Some p)"
proof
  assume "(p, i) \<in> child_rel t"
  then show "\<exists>c. get_component t i = Some c \<and> parentId c = Some p"
    by (auto simp: child_rel_def set_effective split: option.splits)
next
  assume "\<exists>c. get_component t i = Some c \<and> parentId c = Some p"
  then obtain c where "(i, c) \<in> set (effective t)" and "parentId c = Some p"
    by (auto simp: set_effective)
  then show "(p, i) \<in> child_rel t"
    by (force simp: child_rel_def)
qed

lemma children_iff:
  "(i, c) \<in> set (children t p) \<longleftrightarrow> get_component t i = Some c \<and> parentId c = p"
  by (auto simp: children_def set_effective)

lemma trancl_child_rel_ids: "(p, i) \<in> (child_rel t)\<^sup>+ \<Longrightarrow> i \<in> set (ids t)"
  by (erule tranclE) (auto simp: child_rel_iff dest: get_component_ids)

lemma descendants_iff:
  "i \<in> set (descendants t p) \<longleftrightarrow> i \<noteq> p \<and> (p, i) \<in> (child_rel t)\<^sup>+"
  by (auto simp: descendants_def dest: trancl_child_rel_ids)

lemma get_component_cleared:
  "get_component (clear_children t p) i =
     (if i \<noteq> p \<and> (p, i) \<in> (child_rel t)\<^sup>+ then None else get_component t i)"
  by (simp add: get_component_clear_children descendants_iff)

lemma child_rel_cleared:
  assumes "(p, k) \<in> child_rel (clear_children t p)"
  shows "k = p"
proof (rule ccontr)
  assume "k \<noteq> p"
  from assms obtain c where c: "get_component (clear_children t p) k = Some c"
    and par: "parentId c = Some p"
    by (auto simp: child_rel_iff)
  from c have "get_component t k = Some c"
    by (simp add: get_component_cleared split: if_splits)
  with par have "(p, k) \<in> (child_rel t)\<^sup>+"
    by (auto simp: child_rel_iff)
  with \<open>k \<noteq> p\<close> c show False
    by (simp add: get_component_cleared)
qed

lemma trancl_child_rel_cleared:
  "(p, k) \<in> (child_rel (clear_children t p))\<^sup>+ \<Longrightarrow> k = p"
  by (induction rule: trancl_induct) (auto dest: child_rel_cleared)

lemma descendants_cleared: "descendants (clear_children t p) p = []"
  by (auto simp: filter_empty_conv descendants_def dest: trancl_child_rel_cleared)

lemma clear_children_no_descendants: "descendants t p = [] \<Longrightarrow> clear_children t p = t"
  by (cases t) simp_all

lemma clear_children_idem: "clear_children (clear_children t p) p = clear_children t p"
  by (simp add: clear_children_no_descendants descendants_cleared)

lemma children_cleared:
  assumes "(k, c') \<in> set (children (clear_children t p) (Some p))"
  shows "k = p"
  using assms child_rel_cleared [of p k t]
  by (auto simp: children_iff child_rel_iff)

lemma refresh_with_present:
  "get_component tree i = Some c \<Longrightarrow> refresh_with tree i = (Inr c, clear_children tree i)"
  by (simp add: refresh_with_def find_component_def truthy_def)

lemma refresh_with_absent:
  "get_component tree i = None \<Longrightarrow>
     refresh_with tree i = (Inl (RuntimeError (''Component '' @ i @ '' not found'')), tree)"
  by (simp add: refresh_with_def find_component_def)

text \<open>
  Claim C3. For an id present in the effective tree, \<open>refresh_with\<close> returns the component
  found and clears its children: the component itself stays, every descendant is gone from the
  effective tree, every other component is untouched, and the component is left without
  children (a component that is not its own parent; at most itself otherwise). Refreshing
  again changes nothing, whatever the number of descendants was. For an absent id it fails
  with the not-found error (a \<open>RuntimeError\<close> in the source) and leaves the tree as it was.
\<close>

theorem refresh_with_clears:
  "(get_component tree i = Some c \<longrightarrow>
      refresh_with tree i = (Inr c, clear_children tree i) \<and>
      get_component (clear_children tree i) i = Some c \<and>
      (\<forall>k. k \<noteq> i \<longrightarrow> (i, k) \<in> (child_rel tree)\<^sup>+ \<longrightarrow>
           get_component (clear_children tree i) k = None) \<and>
      (\<forall>k. (i, k) \<notin> (child_rel tree)\<^sup>+ \<longrightarrow>
           get_component (clear_children tree i) k = get_component tree k) \<and>
      set (children (clear_children tree i) (Some i)) \<subseteq> {(i, c)} \<and>
      (parentId c \<noteq> Some i \<longrightarrow> children (clear_children tree i) (Some i) = []) \<and>
      refresh_with (clear_children tree i) i = (Inr c, clear_children tree i)) \<and>
   (get_component tree i = None \<longrightarrow>
      refresh_with tree i = (Inl (RuntimeError (''Component '' @ i @ '' not found'')), tree))"
proof (intro conjI impI)
  assume c: "get_component tree i = Some c"
  then show "refresh_with tree i = (Inr c, clear_children tree i)"
    by (rule refresh_with_present)
  from c show here: "get_component (clear_children tree i) i = Some c"
    by (simp add: get_component_cleared)
  show "\<forall>k. k \<noteq> i \<longrightarrow> (i, k) \<in> (child_rel tree)\<^sup>+ \<longrightarrow>
           get_component (clear_children tree i) k = None"
    by (simp add: get_component_cleared)
  show "\<forall>k. (i, k) \<notin> (child_rel tree)\<^sup>+ \<longrightarrow>
           get_component (clear_children tree i) k = get_component tree k"
    by (simp add: get_component_cleared)
  show sub: "set (children (clear_children tree i) (Some i)) \<subseteq> {(i, c)}"
  proof
    fix x assume x: "x \<in> set (children (clear_children tree i) (Some i))"
    obtain k c' where kc: "x = (k, c')" by (cases x)
    with x have "k = i" by (auto dest: children_cleared)
    moreover from x kc have "get_component (clear_children tree i) k = Some c'"
      by (simp add: children_iff)
    ultimately show "x \<in> {(i, c)}" using here kc by simp
  qed
  show "children (clear_children tree i) (Some i) = []" if "parentId c \<noteq> Some i"
  proof (rule ccontr)
    assume "children (clear_children tree i) (Some i) \<noteq> []"
    then obtain x where "x \<in> set (children (clear_children tree i) (Some i))"
      by (cases "children (clear_children tree i) (Some i)") auto
    with sub have "(i, c) \<in> set (children (clear_children tree i) (Some i))" by auto
    with that show False by (simp add: children_iff)
  qed
  from here show "refresh_with (clear_children tree i) i = (Inr c, clear_children tree i)"
    by (simp add: refresh_with_present clear_children_idem)
next
  assume "get_component tree i = None"
  then show "refresh_with tree i = (Inl (RuntimeError (''Component '' @ i @ '' not found'')), tree)"
    by (rule refresh_with_absent)
qed

lemma session_tree_root: "get_component session_tree ''root'' = Some root_component"
  by (simp add: session_tree_def)

lemma session_tree_edges:
  "(''root'', ''col'') \<in> child_rel session_tree" "(''col'', ''txt'') \<in> child_rel session_tree"
  "(''col'', ''btn'') \<in> child_rel session_tree"
  by (simp_all add: child_rel_iff session_tree_def column_component_def text_component_def
      button_component_def)

theorem refresh_with_clears_witness:
  "get_component session_tree ''root'' = Some root_component \<and>
   parentId root_component \<noteq> Some ''root'' \<and>
   refresh_with session_tree ''root'' = (Inr root_component, clear_children session_tree ''root'') \<and>
   get_component (clear_children session_tree ''root'') ''root'' = Some root_component \<and>
   get_component (clear_children session_tree ''root'') ''col'' = None \<and>
   get_component (clear_children session_tree ''root'') ''txt'' = None \<and>
   get_component (clear_children session_tree ''root'') ''btn'' = None \<and>
   children (clear_children session_tree ''root'') (Some ''root'') = [] \<and>
   get_component session_tree ''nope'' = None \<and>
   refresh_with session_tree ''nope'' = (Inl (RuntimeError ''Component nope not found''), session_tree)"
proof -
  have p: "parentId root_component \<noteq> Some ''root''"
    by (simp add: root_component_def)
  have e1: "(''root'', ''col'') \<in> (child_rel session_tree)\<^sup>+"
    using session_tree_edges(1) by blast
  have e2: "(''root'', ''txt'') \<in> (child_rel session_tree)\<^sup>+"
    using session_tree_edges(1,2) by (blast intro: trancl_into_trancl)
  have e3: "(''root'', ''btn'') \<in> (child_rel session_tree)\<^sup>+"
    using session_tree_edges(1,3) by (blast intro: trancl_into_trancl)
  have n: "get_component session_tree ''nope'' = None"
    by (simp add: session_tree_def)
  from refresh_with_clears [of session_tree "''root''" root_component]
    refresh_with_clears [of session_tree "''nope''"]
    session_tree_root p e1 e2 e3 n
  show ?thesis by simp
qed

section \<open>Positions\<close>

lemma sibling_positions_iff:
  "n \<in> set (sibling_positions t p) \<longleftrightarrow>
     n \<noteq> positionless_sentinel \<and>
     (\<exists>i c. get_component t i = Some c \<and> parentId c = p \<and> position c = n)"
proof
  assume "n \<in> set (sibling_positions t p)"
  then obtain i c where "(i, c) \<in> set (children t p)" and "position c = n"
    and "n \<noteq> positionless_sentinel"
    by (auto simp: sibling_positions_def)
  then show "n \<noteq> positionless_sentinel \<and>
     (\<exists>i c. get_component t i = Some c \<and> parentId c = p \<and> position c = n)"
    by (auto simp: children_iff)
next
  assume "n \<noteq> positionless_sentinel \<and>
     (\<exists>i c. get_component t i = Some c \<and> parentId c = p \<and> position c = n)"
  then obtain i c where "(i, c) \<in> set (children t p)" and "position c = n"
    and "n \<noteq> positionless_sentinel"
    by (auto simp: children_iff)
  then show "n \<in> set (sibling_positions t p)"
    by (force simp: sibling_positions_def)
qed

lemma sibling_positions_attach:
  assumes "get_component t (c_id c) = None"
  shows "set (sibling_positions (attach t c) p) =
           (if parentId c = p \<and> position c \<noteq> positionless_sentinel
            then insert (position c) (set (sibling_positions t p))
            else set (sibling_positions t p))"
proof -
  have "n \<in> set (sibling_positions (attach t c) p) \<longleftrightarrow>
          (parentId c = p \<and> position c \<noteq> positionless_sentinel \<and> n = position c) \<or>
          n \<in> set (sibling_positions t p)" for n
  proof
    assume "n \<in> set (sibling_positions (attach t c) p)"
    then obtain i c' where n: "n \<noteq> positionless_sentinel"
      and g: "get_component (attach t c) i = Some c'"
      and c': "parentId c' = p" "position c' = n"
      by (auto simp: sibling_positions_iff)
    show "(parentId c = p \<and> position c \<noteq> positionless_sentinel \<and> n = position c) \<or>
          n \<in> set (sibling_positions t p)"
    proof (cases "i = c_id c")
      case True
      with g have "c' = c" by (simp add: get_component_attach)
      with n c' show ?thesis by simp
    next
      case False
      with g have "get_component t i = Some c'" by (simp add: get_component_attach)
      with n c' show ?thesis by (auto simp: sibling_positions_iff)
    qed
  next
    assume "(parentId c = p \<and> position c \<noteq> positionless_sentinel \<and> n = position c) \<or>
          n \<in> set (sibling_positions t p)"
    then show "n \<in> set (sibling_positions (attach t c) p)"
    proof
      assume "parentId c = p \<and> position c \<noteq> positionless_sentinel \<and> n = position c"
      moreover have "get_component (attach t c) (c_id c) = Some c"
        by (simp add: get_component_attach)
      ultimately show ?thesis
        unfolding sibling_positions_iff
        by (intro conjI exI [of _ "c_id c"] exI [of _ c]) simp_all
    next
      assume "n \<in> set (sibling_positions t p)"
      then obtain i c' where n: "n \<noteq> positionless_sentinel"
        and g: "get_component t i = Some c'"
        and c': "parentId c' = p" "position c' = n"
        by (auto simp: sibling_positions_iff)
      from g assms have "i \<noteq> c_id c" by auto
      with g have "get_component (attach t c) i = Some c'"
        by (simp add: get_component_attach)
      with n c' show ?thesis
        unfolding sibling_positions_iff
        by (intro conjI exI [of _ i] exI [of _ c']) simp_all
    qed
  qed
  then show ?thesis by auto
qed

lemma append_position_eq:
  "append_position t p =
     (if sibling_positions t p = [] then 0 else 1 + Max (set (sibling_positions t p)))"
  by (simp add: append_position_def)

lemma append_position_nonneg:
  assumes "\<forall>n \<in> set (sibling_positions t p). 0 \<le> n"
  shows "0 \<le> append_position t p"
proof (cases "sibling_positions t p = []")
  case True
  then show ?thesis by (simp add: append_position_eq)
next
  case False
  then have "Max (set (sibling_positions t p)) \<in> set (sibling_positions t p)"
    by (intro Max_in) simp_all
  with assms have "0 \<le> Max (set (sibling_positions t p))" by blast
  with False show ?thesis by (simp add: append_position_eq)
qed

lemma append_position_greater:
  "n \<in> set (sibling_positions t p) \<Longrightarrow> n < append_position t p"
proof -
  assume n: "n \<in> set (sibling_positions t p)"
  then have "n \<le> Max (set (sibling_positions t p))" by simp
  moreover from n have "sibling_positions t p \<noteq> []" by auto
  ultimately show ?thesis by (simp add: append_position_eq)
qed

lemma append_position_attach:
  assumes fresh: "get_component t (c_id c) = None"
    and par: "parentId c = p"
    and pos: "position c = append_position t p"
    and nonneg: "\<forall>n \<in> set (sibling_positions t p). 0 \<le> n"
  shows "append_position (attach t c) p = append_position t p + 1"
    and "\<forall>n \<in> set (sibling_positions (attach t c) p). 0 \<le> n"
proof -
  let ?q = "append_position t p"
  have q0: "0 \<le> ?q" using nonneg by (rule append_position_nonneg)
  then have "?q \<noteq> positionless_sentinel" by (simp add: positionless_sentinel_def)
  with sibling_positions_attach [OF fresh, of p] par pos
  have S: "set (sibling_positions (attach t c) p) = insert ?q (set (sibling_positions t p))"
    by simp
  then have ne: "sibling_positions (attach t c) p \<noteq> []" by auto
  have "Max (insert ?q (set (sibling_positions t p))) = ?q"
  proof (rule Max_eqI)
    show "finite (insert ?q (set (sibling_positions t p)))" by simp
    show "y \<le> ?q" if "y \<in> insert ?q (set (sibling_positions t p))" for y
      using that append_position_greater [of y t p] by auto
    show "?q \<in> insert ?q (set (sibling_positions t p))" by simp
  qed
  with S ne show "append_position (attach t c) p = ?q + 1"
    by (simp add: append_position_eq)
  from S q0 nonneg show "\<forall>n \<in> set (sibling_positions (attach t c) p). 0 \<le> n"
    by auto
qed

lemma creation_unset_position:
  assumes "(Inr c, t') \<in> creation_calls valid g container tree ty kw"
    and "kw_position kw = None \<or> kw_position kw = Some None"
  shows "position c = determine_position tree (c_id c)
                        (Some (spec_parentId (kw_parentId kw) container))
                        (case kw_positionless kw of Some b \<Rightarrow> b | None \<Rightarrow> False)"
  using u_create_component_success(4) [OF creation_calls_success [OF assms(1)]] assms(2)
  by auto

lemma create_all_positions:
  assumes "\<forall>call \<in> set calls. append_call call \<and>
             spec_parentId (kw_parentId (snd (snd call))) container = p"
    and "distinct (map call_id calls)"
    and "\<forall>call \<in> set calls. get_component tree (call_id call) = None"
    and "\<forall>n \<in> set (sibling_positions tree (Some p)). 0 \<le> n"
    and "length (fst (create_all valid leaf container tree calls)) = length calls"
  shows "map position (fst (create_all valid leaf container tree calls)) =
           map (\<lambda>k. append_position tree (Some p) + int k) [0..<length calls]"
  using assms
proof (induction calls arbitrary: tree)
  case Nil
  then show ?case by simp
next
  case (Cons call calls)
  obtain g ty kw where call: "call = (g, ty, kw)" by (cases call)
  let ?r = "if leaf then create_component valid g container tree ty kw
            else create_container_component valid g container tree ty kw"
  obtain res t' where r: "?r = (res, t')" by (cases ?r)
  have mem: "(res, t') \<in> creation_calls valid g container tree ty kw"
    using r by (auto simp: creation_calls_def split: if_splits)
  from Cons.prems(5) call r obtain c where res: "res = Inr c"
    by (cases res) auto
  obtain cs t'' where rest: "create_all valid leaf container t' calls = (cs, t'')"
    by (cases "create_all valid leaf container t' calls")
  have all: "create_all valid leaf container tree (call # calls) = (c # cs, t'')"
    using call r res rest by simp
  note s = u_create_component_success [OF creation_calls_success [OF mem [unfolded res]]]
  have ac: "append_call call" and sp: "spec_parentId (kw_parentId kw) container = p"
    using Cons.prems(1) call by auto
  have cid: "c_id c = call_id call"
    using s(1) call by (simp add: call_id_def)
  have fresh: "get_component tree (c_id c) = None"
    using Cons.prems(3) cid by simp
  have par: "parentId c = Some p" using s(3) sp by simp
  have "position c = determine_position tree (c_id c) (Some p) False"
  proof -
    from ac call have u: "kw_position kw = None \<or> kw_position kw = Some None"
      and pl: "kw_positionless kw \<noteq> Some True"
      by (auto simp: append_call_def)
    from pl have "(case kw_positionless kw of Some b \<Rightarrow> b | None \<Rightarrow> False) = False"
      by (cases "kw_positionless kw") auto
    with creation_unset_position [OF mem [unfolded res] u] sp show ?thesis by simp
  qed
  with fresh have pos: "position c = append_position tree (Some p)"
    by (simp add: determine_position_def)
  have t': "t' = attach tree c" by (rule s(9))
  note a = append_position_attach [OF fresh par pos Cons.prems(4)]
  have 1: "\<forall>call \<in> set calls. append_call call \<and>
             spec_parentId (kw_parentId (snd (snd call))) container = p"
    using Cons.prems(1) by simp
  have 2: "distinct (map call_id calls)" using Cons.prems(2) by simp
  have 3: "\<forall>call \<in> set calls. get_component t' (call_id call) = None"
  proof
    fix x assume x: "x \<in> set calls"
    with Cons.prems(2) have "call_id x \<noteq> call_id call" by (auto simp: image_iff)
    with x Cons.prems(3) cid show "get_component t' (call_id x) = None"
      by (simp add: t' get_component_attach)
  qed
  have 4: "\<forall>n \<in> set (sibling_positions t' (Some p)). 0 \<le> n"
    using a(2) by (simp add: t')
  have 5: "length (fst (create_all valid leaf container t' calls)) = length calls"
    using Cons.prems(5) all rest by simp
  from Cons.IH [OF 1 2 3 4 5] rest
  have "map position cs = map (\<lambda>k. append_position t' (Some p) + int k) [0..<length calls]"
    by simp
  also have "\<dots> = map (\<lambda>k. append_position tree (Some p) + int (Suc k)) [0..<length calls]"
    using a(1) by (simp add: t')
  finally have "map position cs =
      map (\<lambda>k. append_position tree (Some p) + int (Suc k)) [0..<length calls]" .
  with pos all show ?case
    by (simp add: map_upt_Suc del: upt_Suc)
qed

lemma create_all_accept_all_length:
  "length (fst (create_all accept_all False container tree calls)) = length calls"
proof (induction calls arbitrary: tree)
  case Nil
  then show ?case by simp
next
  case (Cons call calls)
  obtain g ty kw where call: "call = (g, ty, kw)" by (cases call)
  obtain c t' where r: "create_container_component accept_all g container tree ty kw = (Inr c, t')"
    by (cases "create_container_component accept_all g container tree ty kw")
       (auto simp: create_container_component_def u_create_component_eq
          Component_init_pop_if_None accept_all_def)
  obtain cs t'' where rest: "create_all accept_all False container t' calls = (cs, t'')"
    by (cases "create_all accept_all False container t' calls")
  with Cons.IH [of t'] call r show ?case by simp
qed

lemma create_positionless_member:
  "(Inr created_positionless, attach base_tree created_positionless) \<in>
     creation_calls accept_all ''g3'' (Some column_component) base_tree ''text''
       (no_kwargs\<lparr>kw_positionless := Some True\<rparr>)"
  by (simp add: creation_calls_def create_component_def assert_in_container_def
      u_create_component_def Component_init_def Let_def pop_if_None_def no_kwargs_def
      accept_all_def truthy_def u_prepare_handlers_def u_prepare_binding_def dict_or_None_def
      opt_dict_or_None_def column_component_def created_text_def created_positionless_def
      determine_position_def positionless_sentinel_def)

lemma create_again_member:
  "(Inr created_again, attach base_tree created_again) \<in>
     creation_calls accept_all ''g4'' (Some column_component) base_tree ''text''
       (no_kwargs\<lparr>kw_id := Some (Some ''txt'')\<rparr>)"
  by (simp add: creation_calls_def create_component_def assert_in_container_def
      u_create_component_def Component_init_def Let_def pop_if_None_def no_kwargs_def
      accept_all_def truthy_def u_prepare_handlers_def u_prepare_binding_def dict_or_None_def
      opt_dict_or_None_def column_component_def created_text_def created_again_def
      determine_position_def base_tree_def text_component_def)

lemma sibling_positions_examples:
  "sibling_positions base_tree (Some ''col'') = [2]" "sibling_positions root_only (Some ''root'') = []"
  by (simp_all add: sibling_positions_def children_def effective_def base_tree_def root_only_def
      root_component_def column_component_def text_component_def positionless_sentinel_def)

text \<open>
  Claim C4. A creation call with unset position gives the component the positionless sentinel
  when it is positionless; otherwise the position of the component already stored under its
  id, when there is one; otherwise one more than the greatest position among the siblings under
  the resolved parent, and 0 when there are none. Successive appends of new ids under one
  parent therefore receive consecutive positions, \<open>0, 1, 2, \<dots>\<close> under a parent without
  positioned children.
\<close>

theorem unset_position_determined:
  "((Inr c, t') \<in> creation_calls valid g container tree ty kw \<longrightarrow>
    (kw_position kw = None \<or> kw_position kw = Some None) \<longrightarrow>
      (kw_positionless kw = Some True \<longrightarrow> position c = positionless_sentinel) \<and>
      (kw_positionless kw \<noteq> Some True \<longrightarrow>
         (\<forall>old. get_component tree (c_id c) = Some old \<longrightarrow> position c = position old) \<and>
         (get_component tree (c_id c) = None \<longrightarrow>
            position c =
              (if sibling_positions tree (Some (spec_parentId (kw_parentId kw) container)) = [] then 0
               else 1 + Max (set (sibling_positions tree
                                   (Some (spec_parentId (kw_parentId kw) container)))))))) \<and>
   ((\<forall>call \<in> set calls. append_call call \<and>
        spec_parentId (kw_parentId (snd (snd call))) container = p) \<longrightarrow>
    distinct (map call_id calls) \<longrightarrow>
    (\<forall>call \<in> set calls. get_component tree (call_id call) = None) \<longrightarrow>
    length (fst (create_all valid leaf container tree calls)) = length calls \<longrightarrow>
      ((\<forall>n \<in> set (sibling_positions tree (Some p)). 0 \<le> n) \<longrightarrow>
         map position (fst (create_all valid leaf container tree calls)) =
           map (\<lambda>k. append_position tree (Some p) + int k) [0..<length calls]) \<and>
      (sibling_positions tree (Some p) = [] \<longrightarrow>
         map position (fst (create_all valid leaf container tree calls)) =
           map int [0..<length calls]))"
proof (intro conjI impI)
  assume m: "(Inr c, t') \<in> creation_calls valid g container tree ty kw"
    and u: "kw_position kw = None \<or> kw_position kw = Some None"
  note d = creation_unset_position [OF m u]
  show "position c = positionless_sentinel" if "kw_positionless kw = Some True"
    using d that by (simp add: determine_position_def)
  show "\<forall>old. get_component tree (c_id c) = Some old \<longrightarrow> position c = position old"
    if "kw_positionless kw \<noteq> Some True"
  proof -
    from that have "(case kw_positionless kw of Some b \<Rightarrow> b | None \<Rightarrow> False) = False"
      by (cases "kw_positionless kw") auto
    with d show ?thesis by (simp add: determine_position_def)
  qed
  show "position c =
      (if sibling_positions tree (Some (spec_parentId (kw_parentId kw) container)) = [] then 0
       else 1 + Max (set (sibling_positions tree (Some (spec_parentId (kw_parentId kw) container)))))"
    if "kw_positionless kw \<noteq> Some True" and "get_component tree (c_id c) = None"
  proof -
    from that(1) have "(case kw_positionless kw of Some b \<Rightarrow> b | None \<Rightarrow> False) = False"
      by (cases "kw_positionless kw") auto
    with d that(2) show ?thesis
      by (simp add: determine_position_def append_position_eq)
  qed
next
  assume a: "\<forall>call \<in> set calls. append_call call \<and>
        spec_parentId (kw_parentId (snd (snd call))) container = p"
    and b: "distinct (map call_id calls)"
    and c: "\<forall>call \<in> set calls. get_component tree (call_id call) = None"
    and d: "length (fst (create_all valid leaf container tree calls)) = length calls"
  show "map position (fst (create_all valid leaf container tree calls)) =
           map (\<lambda>k. append_position tree (Some p) + int k) [0..<length calls]"
    if "\<forall>n \<in> set (sibling_positions tree (Some p)). 0 \<le> n"
    using a b c that d by (rule create_all_positions)
  show "map position (fst (create_all valid leaf container tree calls)) =
           map int [0..<length calls]"
    if e: "sibling_positions tree (Some p) = []"
  proof -
    from e have "\<forall>n \<in> set (sibling_positions tree (Some p)). 0 \<le> n" by simp
    from create_all_positions [OF a b c this d] e show ?thesis
      by (simp add: append_position_eq)
  qed
qed

theorem unset_position_determined_witness:
  "(Inr created_text, attach base_tree created_text) \<in>
      creation_calls accept_all ''g1'' (Some column_component) base_tree ''text'' no_kwargs \<and>
   get_component base_tree ''g1'' = None \<and> sibling_positions base_tree (Some ''col'') = [2] \<and>
   position created_text = 3 \<and>
   (Inr created_positionless, attach base_tree created_positionless) \<in>
     creation_calls accept_all ''g3'' (Some column_component) base_tree ''text''
       (no_kwargs\<lparr>kw_positionless := Some True\<rparr>) \<and>
   position created_positionless = - 2 \<and>
   (Inr created_again, attach base_tree created_again) \<in>
     creation_calls accept_all ''g4'' (Some column_component) base_tree ''text''
       (no_kwargs\<lparr>kw_id := Some (Some ''txt'')\<rparr>) \<and>
   get_component base_tree ''txt'' = Some text_component \<and>
   position created_again = position text_component \<and>
   map position (fst (create_all accept_all False None root_only three_calls)) = [0, 1, 2]"
proof -
  have g1: "get_component base_tree ''g1'' = None" and tx: "get_component base_tree ''txt'' = Some text_component"
    by (simp_all add: base_tree_def)
  have 1: "\<forall>call \<in> set three_calls. append_call call \<and>
        spec_parentId (kw_parentId (snd (snd call))) None = ''root''"
    by (simp add: three_calls_def append_call_def no_kwargs_def)
  have 2: "distinct (map call_id three_calls)"
    by (simp add: three_calls_def call_id_def no_kwargs_def)
  have 3: "\<forall>call \<in> set three_calls. get_component root_only (call_id call) = None"
    by (simp add: three_calls_def call_id_def no_kwargs_def root_only_def)
  have 4: "length (fst (create_all accept_all False None root_only three_calls)) = length three_calls"
    by (rule create_all_accept_all_length)
  have 5: "map int [0..<length three_calls] = [0, 1, 2]"
    by (simp add: three_calls_def upt_rec)
  have k: "kw_position no_kwargs = None" "kw_positionless no_kwargs = None" "kw_parentId no_kwargs = None"
    by (simp_all add: no_kwargs_def)
  from unset_position_determined [of created_text "attach base_tree created_text" accept_all
      "''g1''" "Some column_component" base_tree "''text''" no_kwargs "[]"]
    create_text_member g1 sibling_positions_examples(1) k
  have A: "position created_text = 3"
    by (simp add: created_text_def column_component_def)
  from unset_position_determined [of created_positionless "attach base_tree created_positionless"
      accept_all "''g3''" "Some column_component" base_tree "''text''"
      "no_kwargs\<lparr>kw_positionless := Some True\<rparr>" "[]"]
    create_positionless_member k
  have B: "position created_positionless = - 2"
    by (simp add: positionless_sentinel_def)
  from unset_position_determined [of created_again "attach base_tree created_again"
      accept_all "''g4''" "Some column_component" base_tree "''text''"
      "no_kwargs\<lparr>kw_id := Some (Some ''txt'')\<rparr>" "[]"]
    create_again_member k tx
  have C: "position created_again = position text_component"
    by (simp add: created_again_def created_text_def)
  from unset_position_determined [of _ _ accept_all _ None root_only _ _ three_calls "''root''" False]
    1 2 3 4 sibling_positions_examples(2)
  have "map position (fst (create_all accept_all False None root_only three_calls)) =
      map int [0..<length three_calls]"
    by blast
  with 5 have D: "map position (fst (create_all accept_all False None root_only three_calls)) =
      [0, 1, 2]"
    by simp
  from A B C D create_text_member create_positionless_member create_again_member g1 tx
    sibling_positions_examples(1)
  show ?thesis by simp
qed

section \<open>Lookup\<close>

text \<open>
  Claim C5. For every id, \<open>find\<close> returns the component stored under that id in the
  effective tree (the session's own entry, else the base tree's) when there is one, and fails
  with the not-found error (a \<open>RuntimeError\<close> in the source) exactly when the id is absent
  from the effective tree.
\<close>

theorem find_component_iff:
  "(find_component tree i = Inr c \<longleftrightarrow> get_component tree i = Some c) \<and>
   (find_component tree i = Inl (RuntimeError (''Component '' @ i @ '' not found''))
      \<longleftrightarrow> get_component tree i = None) \<and>
   (find_component tree i = Inl e \<longleftrightarrow>
      get_component tree i = None \<and> e = RuntimeError (''Component '' @ i @ '' not found'')) \<and>
   (find_component (SessionTree s b) i = Inr c \<longleftrightarrow>
      map_of s i = Some (Some c) \<or> (map_of s i = None \<and> map_of b i = Some c))"
  by (auto simp: find_component_def split: option.splits)

theorem find_component_iff_witness:
  "find_component session_tree ''txt'' = Inr text_component \<and>
   find_component session_tree ''btn'' = Inr button_component \<and>
   find_component session_tree ''nope'' = Inl (RuntimeError ''Component nope not found'') \<and>
   find_component base_tree ''btn'' = Inl (RuntimeError ''Component btn not found'')"
  using find_component_iff [of session_tree "''txt''" text_component]
    find_component_iff [of session_tree "''btn''" button_component]
    find_component_iff [of session_tree "''nope''"]
    find_component_iff [of base_tree "''btn''"]
  by (simp add: session_tree_def base_tree_def)

section \<open>The in-container precondition\<close>

text \<open>
  Claim C1. With no container held by the context, \<open>create_component\<close> fails with the
  in-container error (a \<open>UIError\<close> in the source) whatever the arguments and the tree, and
  leaves the tree as it was: no component is constructed or attached. In the same state
  \<open>create_container_component\<close> is the shared creation routine itself: it never raises the
  in-container error, it fails only if the \<open>Component\<close> constructor rejects its arguments,
  and otherwise it returns the component, attached to the tree.
\<close>

theorem create_outside_container:
  "create_component valid g None tree ty kw =
     (Inl (UIError ''A component can only be created inside a container''), tree) \<and>
   create_container_component valid g None tree ty kw = u_create_component valid g None tree ty kw \<and>
   fst (create_container_component valid g None tree ty kw) \<noteq>
     Inl (UIError ''A component can only be created inside a container'') \<and>
   (fst (create_container_component valid g None tree ty kw) = Inl ValidationError \<or>
    (\<exists>c. fst (create_container_component valid g None tree ty kw) = Inr c \<and>
         get_component (snd (create_container_component valid g None tree ty kw)) (c_id c) = Some c)) \<and>
   (\<exists>c. fst (create_container_component accept_all g None tree ty kw) = Inr c)"
  by (auto simp: create_component_def create_container_component_def assert_in_container_def
      u_create_component_eq Component_init_pop_if_None get_component_attach accept_all_def)

theorem create_outside_container_witness:
  "create_component accept_all ''id1'' None base_tree ''text'' no_kwargs =
     (Inl (UIError ''A component can only be created inside a container''), base_tree) \<and>
   (\<exists>c. fst (create_container_component accept_all ''id1'' None base_tree ''column'' no_kwargs) = Inr c)"
  using create_outside_container [of accept_all "''id1''" base_tree "''text''" no_kwargs]
    create_outside_container [of accept_all "''id1''" base_tree "''column''" no_kwargs]
  by blast

end
